theory Spec2Isabelle
  imports Main "HOL-Library.Char_ord" "HOL-Library.List_Lexorder"
begin

section \<open>Python values used by \<open>src/rnn/model.py\<close>\<close>

text \<open>
  The exceptions the modelled code can raise. \<open>ValueError\<close> is what the builtins
  \<open>max\<close> and \<open>min\<close> raise on an empty iterable and what the label encoder raises on an
  unseen label or class index; \<open>AttributeError\<close> is what reading \<open>classes_\<close> of an
  encoder that was never fit raises, and \<open>NotFittedError\<close> what transforming with such
  an encoder raises.
\<close>

datatype error = ValueError | AttributeError | NotFittedError

text \<open>The builtin \<open>max(iterable)\<close>: a left-to-right scan, \<open>ValueError\<close> on no elements.\<close>

fun py_max :: "int list \<Rightarrow> error + int" where
  "py_max [] = Inl ValueError"
| "py_max (x # xs) = Inr (fold (\<lambda>y acc. if acc < y then y else acc) xs x)"

text \<open>The builtin \<open>min(iterable)\<close>.\<close>

fun py_min :: "int list \<Rightarrow> error + int" where
  "py_min [] = Inl ValueError"
| "py_min (x # xs) = Inr (fold (\<lambda>y acc. if y < acc then y else acc) xs x)"

text \<open>
  The slice \<open>xs[:k]\<close>: a negative \<open>k\<close> counts from the end, and both ends are clipped
  to the list.
\<close>

definition py_slice_to :: "'a list \<Rightarrow> int \<Rightarrow> 'a list" where
  "py_slice_to xs k =
     (if k < 0 then take (nat (int (length xs) + k)) xs else take (nat k) xs)"

text \<open>The list product \<open>xs * n\<close>: the empty list for \<open>n \<le> 0\<close>.\<close>

definition py_list_mul :: "'a list \<Rightarrow> int \<Rightarrow> 'a list" where
  "py_list_mul xs n = concat (replicate (nat n) xs)"

text \<open>\<open>range(a, b)\<close>: the integers from \<open>a\<close> up to \<open>b - 1\<close>.\<close>

definition py_range :: "int \<Rightarrow> int \<Rightarrow> int list" where
  "py_range a b = [a..b - 1]"

section \<open>Samples\<close>

text \<open>
  Class \<open>Sample\<close> has the single field \<open>word\<close>; \<open>encode\<close> returns it. \<open>Pad_sample\<close>
  is the subclass whose constructor passes \<open>word = 0\<close>.
\<close>

datatype Sample = Sample (word: int)

definition encode :: "Sample \<Rightarrow> int" where
  "encode s = word s"

definition Pad_sample :: Sample where
  "Pad_sample = Sample 0"

section \<open>Padding and truncation\<close>

text \<open>
  The loop of \<open>pad_sequences\<close>: each sequence is sliced to \<open>maxlen\<close>, extended by
  \<open>[pad_func()] * (maxlen - len(sequence))\<close> and appended to \<open>ret\<close>.
\<close>

fun pad_sequences_loop ::
  "'a list list \<Rightarrow> (unit \<Rightarrow> 'a) \<Rightarrow> int \<Rightarrow> 'a list list \<Rightarrow> 'a list list" where
  "pad_sequences_loop [] pad_func maxlen ret = ret"
| "pad_sequences_loop (sequence # rest) pad_func maxlen ret =
     (let cur_seq = py_slice_to sequence maxlen;
          cur_seq = cur_seq @ py_list_mul [pad_func ()] (maxlen - int (length sequence))
      in pad_sequences_loop rest pad_func maxlen (ret @ [cur_seq]))"

text \<open>
  \<open>pad_sequences(sequences, pad_func, maxlen = None)\<close>. The maximum of the lengths is
  taken first, so an empty collection raises before anything else happens.
\<close>

definition pad_sequences ::
  "'a list list \<Rightarrow> (unit \<Rightarrow> 'a) \<Rightarrow> int option \<Rightarrow> error + 'a list list" where
  "pad_sequences sequences pad_func maxlen =
     (case py_max (map (\<lambda>s. int (length s)) sequences) of
        Inl e \<Rightarrow> Inl e
      | Inr max_value \<Rightarrow>
          (let maxlen = (case maxlen of None \<Rightarrow> max_value
                                      | Some l \<Rightarrow> min max_value l)
           in Inr (pad_sequences_loop sequences pad_func maxlen [])))"

text \<open>
  The specification's vocabulary, for stating the claims: the maximum observed length of
  a collection and the effective length for a requested length.
\<close>

definition max_observed_length :: "'a list list \<Rightarrow> nat" where
  "max_observed_length sequences = Max (length ` set sequences)"

definition effective_length :: "'a list list \<Rightarrow> int option \<Rightarrow> int" where
  "effective_length sequences maxlen =
     (case maxlen of None \<Rightarrow> int (max_observed_length sequences)
                   | Some l \<Rightarrow> min l (int (max_observed_length sequences)))"

text \<open>The pad factory \<open>lambda : Pad_sample()\<close> that \<open>encode_inputs\<close> passes.\<close>

definition pad_func_Pad_sample :: "unit \<Rightarrow> Sample" where
  "pad_func_Pad_sample = (\<lambda>_. Pad_sample)"

text \<open>
  What one iteration of the loop appends for a sequence \<open>s\<close>, as a function of its own;
  \<open>pad_sequences_loop\<close> is related to it below.
\<close>

definition pad_one :: "int \<Rightarrow> 'a \<Rightarrow> 'a list \<Rightarrow> 'a list" where
  "pad_one k p s = py_slice_to s k @ replicate (nat (k - int (length s))) p"

section \<open>The label vocabulary\<close>

text \<open>
  Modelled from the spec: the label encoder (\<open>sklearn.preprocessing.LabelEncoder\<close>) is
  not part of the source file, which only calls its \<open>fit\<close>, \<open>transform\<close>,
  \<open>inverse_transform\<close> and reads \<open>classes_\<close>. The spec describes it as a bijective
  mapping between textual tags and dense integer class indices, fit from the observed
  label column. The model is the library's: \<open>fit\<close> stores the sorted distinct labels
  as \<open>classes_\<close>; \<open>transform\<close> raises on a label that is not among them and maps each
  label to its position by a sorted search; \<open>inverse_transform\<close> raises on an index
  outside \<open>0 .. len(classes_) - 1\<close> and reads \<open>classes_\<close> at the index otherwise. The
  state of an encoder is \<open>None\<close> before the first \<open>fit\<close> and \<open>Some classes_\<close> after.
\<close>

definition LabelEncoder_fit :: "'l::linorder list \<Rightarrow> 'l list" where
  "LabelEncoder_fit y = sort (remdups y)"

definition searchsorted :: "'l::linorder list \<Rightarrow> 'l \<Rightarrow> int" where
  "searchsorted classes v = int (length (takeWhile (\<lambda>c. c < v) classes))"

definition LabelEncoder_transform :: "'l::linorder list option \<Rightarrow> 'l list \<Rightarrow> error + int list" where
  "LabelEncoder_transform enc y =
     (case enc of
        None \<Rightarrow> Inl NotFittedError
      | Some classes \<Rightarrow>
          if \<exists>v \<in> set y. v \<notin> set classes then Inl ValueError
          else Inr (map (searchsorted classes) y))"

definition LabelEncoder_inverse_transform ::
  "'l list option \<Rightarrow> int list \<Rightarrow> error + 'l list" where
  "LabelEncoder_inverse_transform enc y =
     (case enc of
        None \<Rightarrow> Inl NotFittedError
      | Some classes \<Rightarrow>
          if \<exists>i \<in> set y. i < 0 \<or> int (length classes) \<le> i then Inl ValueError
          else Inr (map (\<lambda>i. classes ! nat i) y))"

text \<open>
  Modelled from the spec: \<open>np_utils.to_categorical\<close> of the deep-learning framework is
  not part of the source file. The spec has each row's label one-hot encoded; the model
  is the library's: the number of columns is the largest class index of the argument
  plus one (the maximum of no indices raises), and row \<open>i\<close> is zero except for a one in
  column \<open>y[i]\<close>.
\<close>

definition to_categorical :: "int list \<Rightarrow> error + int list list" where
  "to_categorical y =
     (case py_max y of
        Inl e \<Rightarrow> Inl e
      | Inr m \<Rightarrow> Inr (map (\<lambda>c. (replicate (nat (m + 1)) 0)[nat c := 1]) y))"

section \<open>The dataset loader\<close>

text \<open>
  A row of the data frame read from the dataset file, with the columns the code reads:
  \<open>run_id\<close>, \<open>word\<close>, \<open>pred\<close> and \<open>label\<close>. A data frame is the list of its rows, so
  all columns of a frame (and of a selection of its rows) have the same length.
\<close>

record row =
  run_id :: int
  row_word :: string
  row_pred :: string
  row_label :: string

type_synonym dataframe = "row list"

text \<open>
  The part of \<open>RNN_model\<close> that the loader reads and writes: \<open>sent_maxlen\<close>, the
  \<open>classes_\<close> of \<open>self.encoder\<close>, and \<open>self.emb.get_word_index\<close> of the embedding
  provider, which is a parameter here. The hyperparameters that only the network uses are
  left out.
\<close>

record RNN_model =
  sent_maxlen :: "int option"
  encoder :: "string list option"
  emb_get_word_index :: "string \<Rightarrow> int"

text \<open>The dictionary \<open>encode_inputs\<close> returns, with its two keys.\<close>

record encoded_input =
  word_inputs :: "int list list"
  predicate_inputs :: "int list list"

text \<open>
  \<open>get_sents_from_df\<close>: one selection of rows per \<open>i\<close> in
  \<open>range(min(df.run_id), max(df.run_id))\<close>.
\<close>

definition get_sents_from_df :: "dataframe \<Rightarrow> error + dataframe list" where
  "get_sents_from_df df =
     (case py_min (map run_id df) of
        Inl e \<Rightarrow> Inl e
      | Inr lo \<Rightarrow>
          (case py_max (map run_id df) of
             Inl e \<Rightarrow> Inl e
           | Inr hi \<Rightarrow> Inr (map (\<lambda>i. filter (\<lambda>r. run_id r = i) df) (py_range lo hi))))"

text \<open>
  \<open>encode_inputs\<close>: the first loop appends the samples of each sentence to
  \<open>word_inputs\<close> and \<open>pred_inputs\<close>; the second pads both and encodes every sample.
  The local list \<open>word_inputs\<close> is written \<open>word_inputs'\<close>, the plain name being the
  key of the result.
\<close>

definition encode_inputs_collect ::
  "RNN_model \<Rightarrow> dataframe list \<Rightarrow> Sample list list \<times> Sample list list" where
  "encode_inputs_collect m sents =
     fold (\<lambda>sent (word_inputs', pred_inputs).
             (let word_encodings = map (\<lambda>r. emb_get_word_index m (row_word r)) sent;
                  pred_word_encodings = map (\<lambda>r. emb_get_word_index m (row_pred r)) sent
              in (word_inputs' @ [map Sample word_encodings],
                  pred_inputs @ [map Sample pred_word_encodings])))
          sents ([], [])"

definition encode_inputs :: "RNN_model \<Rightarrow> dataframe list \<Rightarrow> error + encoded_input" where
  "encode_inputs m sents =
     (case encode_inputs_collect m sents of
        (word_inputs', pred_inputs) \<Rightarrow>
          (case pad_sequences word_inputs' pad_func_Pad_sample (sent_maxlen m) of
             Inl e \<Rightarrow> Inl e
           | Inr ws \<Rightarrow>
               (case pad_sequences pred_inputs pad_func_Pad_sample (sent_maxlen m) of
                  Inl e \<Rightarrow> Inl e
                | Inr ps \<Rightarrow>
                    Inr \<lparr>word_inputs = map (map encode) ws,
                         predicate_inputs = map (map encode) ps\<rparr>)))"

text \<open>
  The method \<open>classes_\<close> (written \<open>classes'\<close>, since a name cannot end in an
  underscore here) reads \<open>self.encoder.classes_\<close>, an attribute that exists only once
  the encoder was fit; \<open>num_of_classes\<close> is its length.
\<close>

definition classes' :: "RNN_model \<Rightarrow> error + string list" where
  "classes' m = (case encoder m of None \<Rightarrow> Inl AttributeError | Some classes \<Rightarrow> Inr classes)"

definition num_of_classes :: "RNN_model \<Rightarrow> error + nat" where
  "num_of_classes m = (case classes' m of Inl e \<Rightarrow> Inl e | Inr classes \<Rightarrow> Inr (length classes))"

text \<open>
  \<open>encode_outputs\<close>: the loop appends the one-hot rows of each sentence's labels and
  stops at the first exception; the result is padded with all-zero class vectors. The pad
  factory \<open>lambda : np.array([0] * self.num_of_classes())\<close> is first called inside the
  loop of \<open>pad_sequences\<close>, after the maximum length was taken: when \<open>num_of_classes\<close>
  raises, an empty collection has raised \<open>ValueError\<close> before, and a non-empty one
  raises at its first sequence.
\<close>

fun encode_outputs_loop ::
  "RNN_model \<Rightarrow> dataframe list \<Rightarrow> int list list list \<Rightarrow> error + int list list list" where
  "encode_outputs_loop m [] output_encodings = Inr output_encodings"
| "encode_outputs_loop m (sent # rest) output_encodings =
     (case LabelEncoder_transform (encoder m) (map row_label sent) of
        Inl e \<Rightarrow> Inl e
      | Inr y \<Rightarrow>
          (case to_categorical y of
             Inl e \<Rightarrow> Inl e
           | Inr c \<Rightarrow> encode_outputs_loop m rest (output_encodings @ [c])))"

definition encode_outputs :: "RNN_model \<Rightarrow> dataframe list \<Rightarrow> error + int list list list" where
  "encode_outputs m sents =
     (case encode_outputs_loop m sents [] of
        Inl e \<Rightarrow> Inl e
      | Inr output_encodings \<Rightarrow>
          (case num_of_classes m of
             Inr n \<Rightarrow>
               pad_sequences output_encodings (\<lambda>_. replicate n 0) (sent_maxlen m)
           | Inl e \<Rightarrow>
               if output_encodings = [] then Inl ValueError else Inl e))"

text \<open>
  \<open>load_dataset\<close>, from the parsed data frame on. The encoder is fit on the whole label
  column first, so the model is returned updated also when a later step raises.
\<close>

definition load_dataset ::
  "RNN_model \<Rightarrow> dataframe \<Rightarrow> RNN_model \<times> (error + encoded_input \<times> int list list list)" where
  "load_dataset m df =
     (let m = m\<lparr>encoder := Some (LabelEncoder_fit (map row_label df))\<rparr>
      in case get_sents_from_df df of
           Inl e \<Rightarrow> (m, Inl e)
         | Inr sents \<Rightarrow>
             (case encode_inputs m sents of
                Inl e \<Rightarrow> (m, Inl e)
              | Inr X \<Rightarrow>
                  (case encode_outputs m sents of
                     Inl e \<Rightarrow> (m, Inl e)
                   | Inr Y \<Rightarrow> (m, Inr (X, Y)))))"

text \<open>\<open>decode_label\<close>: the encoder's \<open>inverse_transform\<close>.\<close>

definition decode_label :: "RNN_model \<Rightarrow> int list \<Rightarrow> error + string list" where
  "decode_label m encoded_label = LabelEncoder_inverse_transform (encoder m) encoded_label"

section \<open>Example data\<close>

text \<open>
  A dataset of three sentences (\<open>run_id\<close> 0, 1 and 2), a second one with a smaller label
  set, and a model whose embedding provider indexes a word by its length; the theorems
  below are evaluated on them.
\<close>

definition example_df :: dataframe where
  "example_df =
     [\<lparr>run_id = 0, row_word = ''he'', row_pred = ''ran'', row_label = ''A0''\<rparr>,
      \<lparr>run_id = 0, row_word = ''ran'', row_pred = ''ran'', row_label = ''P''\<rparr>,
      \<lparr>run_id = 1, row_word = ''stop'', row_pred = ''stop'', row_label = ''P''\<rparr>,
      \<lparr>run_id = 2, row_word = ''no'', row_pred = ''no'', row_label = ''O''\<rparr>]"

definition example_df2 :: dataframe where
  "example_df2 =
     [\<lparr>run_id = 0, row_word = ''go'', row_pred = ''go'', row_label = ''P''\<rparr>,
      \<lparr>run_id = 1, row_word = ''no'', row_pred = ''no'', row_label = ''O''\<rparr>]"

definition example_model :: RNN_model where
  "example_model =
     \<lparr>sent_maxlen = Some 20, encoder = None,
      emb_get_word_index = (\<lambda>w. int (length w))\<rparr>"

text \<open>The sentence groups of \<open>example_df\<close>, as \<open>get_sents_from_df\<close> returns them.\<close>

definition example_sents :: "dataframe list" where
  "example_sents =
     [[\<lparr>run_id = 0, row_word = ''he'', row_pred = ''ran'', row_label = ''A0''\<rparr>,
       \<lparr>run_id = 0, row_word = ''ran'', row_pred = ''ran'', row_label = ''P''\<rparr>],
      [\<lparr>run_id = 1, row_word = ''stop'', row_pred = ''stop'', row_label = ''P''\<rparr>]]"

section \<open>Facts about the helpers\<close>

lemma py_max_fold_eq: "fold (\<lambda>y acc. if acc < y then y else acc) xs (x::int) = fold max xs x"
proof -
  have "(\<lambda>y acc. if acc < y then y else acc) = (max :: int \<Rightarrow> int \<Rightarrow> int)"
    by (intro ext) (simp add: max_def)
  then show ?thesis by simp
qed

lemma py_min_fold_eq: "fold (\<lambda>y acc. if y < acc then y else acc) xs (x::int) = fold min xs x"
proof -
  have "(\<lambda>y acc. if y < acc then y else acc) = (min :: int \<Rightarrow> int \<Rightarrow> int)"
    by (intro ext) (simp add: min_def)
  then show ?thesis by simp
qed

lemma py_max_Max: "xs \<noteq> [] \<Longrightarrow> py_max xs = Inr (Max (set xs))"
proof (cases xs)
  case Nil
  assume "xs \<noteq> []"
  with Nil show ?thesis by simp
next
  case (Cons a list)
  have "Max (set (a # list)) = fold max list a"
    by (rule Max.set_eq_fold)
  with Cons show ?thesis by (simp add: py_max_fold_eq)
qed

lemma py_min_Min: "xs \<noteq> [] \<Longrightarrow> py_min xs = Inr (Min (set xs))"
proof (cases xs)
  case Nil
  assume "xs \<noteq> []"
  with Nil show ?thesis by simp
next
  case (Cons a list)
  have "Min (set (a # list)) = fold min list a"
    by (rule Min.set_eq_fold)
  with Cons show ?thesis by (simp add: py_min_fold_eq)
qed

lemma Max_int_length:
  assumes "sequences \<noteq> []"
  shows "Max ((\<lambda>s. int (length s)) ` set sequences) = int (max_observed_length sequences)"
proof -
  have "Max (int ` (length ` set sequences)) = int (Max (length ` set sequences))"
    using assms by (intro mono_Max_commute [symmetric]) (auto simp: mono_def)
  then show ?thesis
    by (simp add: max_observed_length_def image_image)
qed

lemma pad_sequences_loop_map:
  "pad_sequences_loop sequences pad_func maxlen ret =
     ret @ map (\<lambda>s. py_slice_to s maxlen @
                     py_list_mul [pad_func ()] (maxlen - int (length s))) sequences"
  by (induction sequences arbitrary: ret) (simp_all add: Let_def)

lemma py_list_mul_single: "py_list_mul [x] n = replicate (nat n) x"
  by (induction "nat n" arbitrary: n) (simp_all add: py_list_mul_def)

lemma pad_sequences_nonempty:
  assumes "sequences \<noteq> []"
  shows "pad_sequences sequences pad_func maxlen =
           Inr (map (\<lambda>s. py_slice_to s (effective_length sequences maxlen) @
                          replicate (nat (effective_length sequences maxlen - int (length s)))
                            (pad_func ()))
                  sequences)"
proof -
  have "py_max (map (\<lambda>s. int (length s)) sequences)
          = Inr (int (max_observed_length sequences))"
    using assms py_max_Max [of "map (\<lambda>s. int (length s)) sequences"]
    by (simp add: Max_int_length)
  then show ?thesis
    by (cases maxlen)
       (simp_all add: pad_sequences_def effective_length_def pad_sequences_loop_map
          py_list_mul_single min.commute Let_def)
qed

lemma length_le_max_observed:
  "s \<in> set sequences \<Longrightarrow> length s \<le> max_observed_length sequences"
  by (simp add: max_observed_length_def)

lemma length_pad_one:
  "0 \<le> k \<Longrightarrow>
     int (length (py_slice_to s k @ replicate (nat (k - int (length s))) p)) = k"
  by (simp add: py_slice_to_def)

lemma length_pad_one_nat:
  "length (py_slice_to s (int k) @ replicate (nat (int k - int (length s))) p) = k"
  using length_pad_one [of "int k" s p] by (simp del: length_append)

lemma pad_one_short:
  "int (length s) \<le> k \<Longrightarrow> py_slice_to s k = s"
  by (simp add: py_slice_to_def)

lemma pad_one_long:
  "k < int (length s) \<Longrightarrow> replicate (nat (k - int (length s))) p = []"
  by simp

lemma max_observed_length_example:
  "max_observed_length [[Sample 1, Sample 2, Sample 3], [Sample 4, Sample 5]] = 3"
  by (simp add: max_observed_length_def)

section \<open>Claims about padding and samples\<close>

text \<open>
  C9. A \<open>Pad_sample\<close> encodes to the sentinel index 0, and \<open>Sample(w).encode()\<close>
  returns \<open>w\<close> unchanged, for every integer \<open>w\<close>.
\<close>

theorem Sample_encode:
  "encode Pad_sample = 0 \<and> encode (Sample w) = w"
  by (simp add: encode_def Pad_sample_def)

text \<open>
  C7. \<open>pad_sequences\<close> on an empty collection fails: the maximum over no lengths
  raises \<open>ValueError\<close>, whatever the pad factory and the requested length are. On every
  non-empty collection it returns a result.
\<close>

theorem pad_sequences_empty_fails:
  "pad_sequences [] pad_func maxlen = Inl ValueError \<and>
   (sequences \<noteq> [] \<longrightarrow> (\<exists>out. pad_sequences sequences pad_func maxlen = Inr out))"
proof (intro conjI impI)
  show "pad_sequences [] pad_func maxlen = Inl ValueError"
    by (simp add: pad_sequences_def)
next
  assume "sequences \<noteq> []"
  then show "\<exists>out. pad_sequences sequences pad_func maxlen = Inr out"
    by (simp add: pad_sequences_nonempty)
qed

theorem pad_sequences_empty_fails_witness:
  "pad_sequences [] pad_func_Pad_sample (Some 4) = Inl ValueError \<and>
   [[Sample 1, Sample 2, Sample 3], [Sample 4, Sample 5]] \<noteq> [] \<and>
   pad_sequences [[Sample 1, Sample 2, Sample 3], [Sample 4, Sample 5]]
       pad_func_Pad_sample (Some 4)
     = Inr [[Sample 1, Sample 2, Sample 3], [Sample 4, Sample 5, Sample 0]]"
  using pad_sequences_empty_fails
    [of pad_func_Pad_sample "Some 4" "[[Sample 1, Sample 2, Sample 3], [Sample 4, Sample 5]]"]
  by (simp add: pad_sequences_def py_slice_to_def py_list_mul_def pad_func_Pad_sample_def
        Pad_sample_def)

text \<open>
  C1, as the code has it. For a non-empty collection, with no requested length every
  output sequence has the maximum observed length; with a requested length \<open>l\<close> that is
  not negative, every output sequence has length \<open>min(l, maximum observed length)\<close>.
\<close>

theorem pad_sequences_length:
  assumes "sequences \<noteq> []"
  shows "(\<exists>out. pad_sequences sequences pad_func None = Inr out \<and>
            (\<forall>s \<in> set out. length s = max_observed_length sequences)) \<and>
         (0 \<le> l \<longrightarrow>
            (\<exists>out. pad_sequences sequences pad_func (Some l) = Inr out \<and>
               (\<forall>s \<in> set out.
                  int (length s) = min l (int (max_observed_length sequences)))))"
proof (intro conjI impI)
  have "\<forall>s \<in> set sequences.
          length (py_slice_to s (int (max_observed_length sequences)) @
                 replicate (nat (int (max_observed_length sequences) - int (length s)))
                   (pad_func ()))
            = max_observed_length sequences"
    by (intro ballI length_pad_one_nat)
  then show "\<exists>out. pad_sequences sequences pad_func None = Inr out \<and>
               (\<forall>s \<in> set out. length s = max_observed_length sequences)"
    using assms by (simp add: pad_sequences_nonempty effective_length_def)
next
  assume l: "0 \<le> l"
  let ?k = "min l (int (max_observed_length sequences))"
  have k: "0 \<le> ?k" using l by simp
  have "\<forall>s \<in> set sequences.
          int (length (py_slice_to s ?k @
                 replicate (nat (?k - int (length s))) (pad_func ()))) = ?k"
    using k by (intro ballI length_pad_one)
  then show "\<exists>out. pad_sequences sequences pad_func (Some l) = Inr out \<and>
               (\<forall>s \<in> set out.
                  int (length s) = min l (int (max_observed_length sequences)))"
    using assms by (simp add: pad_sequences_nonempty effective_length_def)
qed

theorem pad_sequences_length_witness:
  "[[Sample 1, Sample 2, Sample 3], [Sample 4, Sample 5]] \<noteq> [] \<and> (0::int) \<le> 2 \<and>
   pad_sequences [[Sample 1, Sample 2, Sample 3], [Sample 4, Sample 5]]
       pad_func_Pad_sample None
     = Inr [[Sample 1, Sample 2, Sample 3], [Sample 4, Sample 5, Sample 0]] \<and>
   pad_sequences [[Sample 1, Sample 2, Sample 3], [Sample 4, Sample 5]]
       pad_func_Pad_sample (Some 2)
     = Inr [[Sample 1, Sample 2], [Sample 4, Sample 5]] \<and>
   min 2 (int (max_observed_length [[Sample 1, Sample 2, Sample 3], [Sample 4, Sample 5]])) = 2"
  using pad_sequences_length
    [of "[[Sample 1, Sample 2, Sample 3], [Sample 4, Sample 5]]" pad_func_Pad_sample 2]
  by (simp add: pad_sequences_def py_slice_to_def py_list_mul_def pad_func_Pad_sample_def
        Pad_sample_def max_observed_length_example)

text \<open>
  The claim C1 as written also covers a negative requested length. There the slice
  \<open>sequence[:maxlen]\<close> drops elements from the end and nothing is padded: a sequence of
  three samples with \<open>maxlen = -1\<close> comes back with two, which is not \<open>min(-1, 3)\<close>.
\<close>

theorem pad_sequences_length_counterexample:
  "pad_sequences [[Sample 1, Sample 2, Sample 3]] pad_func_Pad_sample (Some (- 1))
     = Inr [[Sample 1, Sample 2]] \<and>
   int (length [Sample 1, Sample 2])
     \<noteq> min (- 1) (int (max_observed_length [[Sample 1, Sample 2, Sample 3]]))"
  by (simp add: pad_sequences_def py_slice_to_def py_list_mul_def max_observed_length_def)

text \<open>
  C4, as the code has it. In a non-empty collection, when the effective length is not
  negative (no requested length, or a requested length that is not negative), a sequence
  longer than the effective length comes back as its first \<open>effective_length\<close> elements.
\<close>

theorem pad_sequences_truncates:
  assumes "sequences \<noteq> []"
    and "0 \<le> effective_length sequences maxlen"
    and "i < length sequences"
    and "effective_length sequences maxlen < int (length (sequences ! i))"
  shows "\<exists>out. pad_sequences sequences pad_func maxlen = Inr out \<and>
           out ! i = take (nat (effective_length sequences maxlen)) (sequences ! i)"
proof -
  let ?k = "effective_length sequences maxlen"
  have "py_slice_to (sequences ! i) ?k = take (nat ?k) (sequences ! i)"
    using assms(2) by (simp add: py_slice_to_def)
  moreover have "replicate (nat (?k - int (length (sequences ! i)))) (pad_func ()) = []"
    using assms(4) by (rule pad_one_long)
  ultimately show ?thesis
    using assms(1,3) by (simp add: pad_sequences_nonempty)
qed

theorem pad_sequences_truncates_witness:
  "[[Sample 1, Sample 2, Sample 3], [Sample 4, Sample 5]] \<noteq> [] \<and>
   effective_length [[Sample 1, Sample 2, Sample 3], [Sample 4, Sample 5]] (Some 2) = 2 \<and>
   (0::nat) < length [[Sample 1, Sample 2, Sample 3], [Sample 4, Sample 5]] \<and>
   (2::int) < int (length ([[Sample 1, Sample 2, Sample 3], [Sample 4, Sample 5]] ! 0)) \<and>
   pad_sequences [[Sample 1, Sample 2, Sample 3], [Sample 4, Sample 5]]
       pad_func_Pad_sample (Some 2)
     = Inr [[Sample 1, Sample 2], [Sample 4, Sample 5]]"
  using pad_sequences_truncates
    [of "[[Sample 1, Sample 2, Sample 3], [Sample 4, Sample 5]]" "Some 2" 0
        pad_func_Pad_sample]
  by (simp add: pad_sequences_def py_slice_to_def py_list_mul_def pad_func_Pad_sample_def
        Pad_sample_def effective_length_def max_observed_length_example)

text \<open>
  The claim C4 as written also covers a negative effective length, which a negative
  requested length gives. With \<open>maxlen = -2\<close> every sequence is longer than the
  effective length \<open>-2\<close>, and \<open>sequence[:-2]\<close> keeps all but the last two elements:
  the three-sample sequence comes back with its first sample, not with its first
  \<open>effective_length\<close> elements (none).
\<close>

theorem pad_sequences_truncates_counterexample:
  "pad_sequences [[Sample 4, Sample 5], [Sample 1, Sample 2, Sample 3]]
       pad_func_Pad_sample (Some (- 2))
     = Inr [[], [Sample 1]] \<and>
   effective_length [[Sample 4, Sample 5], [Sample 1, Sample 2, Sample 3]] (Some (- 2))
     < int (length [Sample 1, Sample 2, Sample 3]) \<and>
   [Sample 1]
     \<noteq> take (nat (effective_length [[Sample 4, Sample 5], [Sample 1, Sample 2, Sample 3]]
                      (Some (- 2))))
          [Sample 1, Sample 2, Sample 3]"
  by (simp add: pad_sequences_def py_slice_to_def py_list_mul_def effective_length_def
        max_observed_length_def)

text \<open>
  C5. In a non-empty collection, a sequence shorter than the effective length comes back
  as the original sequence followed by copies of the value the pad factory returns, up to
  the effective length.
\<close>

theorem pad_sequences_pads:
  assumes "sequences \<noteq> []"
    and "i < length sequences"
    and "int (length (sequences ! i)) < effective_length sequences maxlen"
  shows "\<exists>out. pad_sequences sequences pad_func maxlen = Inr out \<and>
           out ! i = sequences ! i @
                     replicate (nat (effective_length sequences maxlen)
                                  - length (sequences ! i)) (pad_func ()) \<and>
           int (length (out ! i)) = effective_length sequences maxlen"
proof -
  let ?k = "effective_length sequences maxlen"
  let ?s = "sequences ! i"
  have slice: "py_slice_to ?s ?k = ?s"
    using assms(3) by (intro pad_one_short) simp
  have count: "nat (?k - int (length ?s)) = nat ?k - length ?s"
    using assms(3) by linarith
  have len: "int (length ?s + (nat ?k - length ?s)) = ?k"
    using assms(3) by linarith
  show ?thesis
    using assms(1,2) slice count len by (simp add: pad_sequences_nonempty)
qed

theorem pad_sequences_pads_witness:
  "[[Sample 1, Sample 2, Sample 3], [Sample 4, Sample 5]] \<noteq> [] \<and>
   (1::nat) < length [[Sample 1, Sample 2, Sample 3], [Sample 4, Sample 5]] \<and>
   int (length ([[Sample 1, Sample 2, Sample 3], [Sample 4, Sample 5]] ! 1))
     < effective_length [[Sample 1, Sample 2, Sample 3], [Sample 4, Sample 5]] (Some 4) \<and>
   effective_length [[Sample 1, Sample 2, Sample 3], [Sample 4, Sample 5]] (Some 4) = 3 \<and>
   pad_sequences [[Sample 1, Sample 2, Sample 3], [Sample 4, Sample 5]]
       pad_func_Pad_sample (Some 4)
     = Inr [[Sample 1, Sample 2, Sample 3], [Sample 4, Sample 5, Pad_sample]]"
  using pad_sequences_pads
    [of "[[Sample 1, Sample 2, Sample 3], [Sample 4, Sample 5]]" 1 "Some 4"
        pad_func_Pad_sample]
  by (simp add: pad_sequences_def py_slice_to_def py_list_mul_def pad_func_Pad_sample_def
        Pad_sample_def effective_length_def max_observed_length_example)

text \<open>
  C10. On a non-empty collection \<open>pad_sequences\<close> returns as many sequences as it was
  given, in the same order: the \<open>i\<close>-th output is the \<open>i\<close>-th input followed by pad
  values, or a prefix of the \<open>i\<close>-th input.
\<close>

theorem pad_sequences_same_count_and_order:
  assumes "sequences \<noteq> []"
  shows "\<exists>out. pad_sequences sequences pad_func maxlen = Inr out \<and>
           length out = length sequences \<and>
           (\<forall>i < length sequences.
              (\<exists>n. out ! i = sequences ! i @ replicate n (pad_func ())) \<or>
              (\<exists>k. out ! i = take k (sequences ! i)))"
proof -
  let ?k = "effective_length sequences maxlen"
  let ?pad = "\<lambda>s. py_slice_to s ?k @ replicate (nat (?k - int (length s))) (pad_func ())"
  have one: "(\<exists>n. ?pad s = s @ replicate n (pad_func ())) \<or> (\<exists>k. ?pad s = take k s)"
    for s :: "'a list"
  proof (cases "int (length s) \<le> ?k")
    case True
    then have "py_slice_to s ?k = s" by (rule pad_one_short)
    then show ?thesis by auto
  next
    case False
    then have "replicate (nat (?k - int (length s))) (pad_func ()) = []" by simp
    moreover have "\<exists>k. py_slice_to s ?k = take k s"
      by (auto simp: py_slice_to_def)
    ultimately show ?thesis by auto
  qed
  have "\<forall>i < length sequences.
          (\<exists>n. ?pad (sequences ! i) = sequences ! i @ replicate n (pad_func ())) \<or>
          (\<exists>k. ?pad (sequences ! i) = take k (sequences ! i))"
    using one by blast
  then show ?thesis
    using assms by (simp add: pad_sequences_nonempty)
qed

theorem pad_sequences_same_count_and_order_witness:
  "[[Sample 1, Sample 2, Sample 3], [Sample 4], [Sample 5, Sample 6]] \<noteq> [] \<and>
   pad_sequences [[Sample 1, Sample 2, Sample 3], [Sample 4], [Sample 5, Sample 6]]
       pad_func_Pad_sample (Some 2)
     = Inr [[Sample 1, Sample 2], [Sample 4, Pad_sample], [Sample 5, Sample 6]] \<and>
   length [[Sample 1, Sample 2], [Sample 4, Pad_sample], [Sample 5, Sample 6]]
     = length [[Sample 1, Sample 2, Sample 3], [Sample 4], [Sample 5, Sample 6]]"
  using pad_sequences_same_count_and_order
    [of "[[Sample 1, Sample 2, Sample 3], [Sample 4], [Sample 5, Sample 6]]"
        pad_func_Pad_sample "Some 2"]
  by (simp add: pad_sequences_def py_slice_to_def py_list_mul_def pad_func_Pad_sample_def
        Pad_sample_def)

section \<open>Claims about the dataset loader\<close>

subsection \<open>Sentence groups\<close>

lemma get_sents_from_df_nonempty:
  assumes "df \<noteq> []"
  shows "get_sents_from_df df =
           Inr (map (\<lambda>i. filter (\<lambda>r. run_id r = i) df)
                  [Min (run_id ` set df)..Max (run_id ` set df) - 1])"
proof -
  have "map run_id df \<noteq> []" using assms by simp
  then have "py_min (map run_id df) = Inr (Min (run_id ` set df))"
    and "py_max (map run_id df) = Inr (Max (run_id ` set df))"
    using py_min_Min [of "map run_id df"] py_max_Max [of "map run_id df"] by simp_all
  then show ?thesis
    by (simp add: get_sents_from_df_def py_range_def)
qed

lemma get_sents_from_df_empty: "get_sents_from_df [] = Inl ValueError"
  by (simp add: get_sents_from_df_def)

text \<open>
  C2. For a data frame with at least one row, \<open>get_sents_from_df\<close> returns one group of
  rows per id from the smallest \<open>run_id\<close> up to the largest minus one, so no row with the
  largest \<open>run_id\<close> is in any group. A data frame whose \<open>run_id\<close> values are exactly
  0, 1 and 2 gives exactly two groups, those of ids 0 and 1.
\<close>

theorem get_sents_from_df_excludes_max:
  "(df \<noteq> [] \<longrightarrow>
      (\<exists>sents. get_sents_from_df df = Inr sents \<and>
         sents = map (\<lambda>i. filter (\<lambda>r. run_id r = i) df)
                   [Min (run_id ` set df)..Max (run_id ` set df) - 1] \<and>
         (\<forall>r \<in> set df. run_id r = Max (run_id ` set df) \<longrightarrow>
            (\<forall>g \<in> set sents. r \<notin> set g)))) \<and>
   (run_id ` set df = {0, 1, 2} \<longrightarrow>
      get_sents_from_df df
        = Inr [filter (\<lambda>r. run_id r = 0) df, filter (\<lambda>r. run_id r = 1) df])"
proof (intro conjI impI)
  assume "df \<noteq> []"
  then show "\<exists>sents. get_sents_from_df df = Inr sents \<and>
         sents = map (\<lambda>i. filter (\<lambda>r. run_id r = i) df)
                   [Min (run_id ` set df)..Max (run_id ` set df) - 1] \<and>
         (\<forall>r \<in> set df. run_id r = Max (run_id ` set df) \<longrightarrow>
            (\<forall>g \<in> set sents. r \<notin> set g))"
    by (auto simp: get_sents_from_df_nonempty)
next
  assume ids: "run_id ` set df = {0, 1, 2}"
  then have "df \<noteq> []" by auto
  moreover have "Min (run_id ` set df) = 0" "Max (run_id ` set df) = 2"
    using ids by simp_all
  moreover have "[0..(1::int)] = [0, 1]"
    by (simp add: upto.simps)
  ultimately show "get_sents_from_df df
        = Inr [filter (\<lambda>r. run_id r = 0) df, filter (\<lambda>r. run_id r = 1) df]"
    by (simp add: get_sents_from_df_nonempty)
qed

theorem get_sents_from_df_excludes_max_witness:
  "example_df \<noteq> [] \<and> run_id ` set example_df = {0, 1, 2} \<and>
   Max (run_id ` set example_df) = 2 \<and>
   get_sents_from_df example_df
     = Inr [[\<lparr>run_id = 0, row_word = ''he'', row_pred = ''ran'', row_label = ''A0''\<rparr>,
             \<lparr>run_id = 0, row_word = ''ran'', row_pred = ''ran'', row_label = ''P''\<rparr>],
            [\<lparr>run_id = 1, row_word = ''stop'', row_pred = ''stop'', row_label = ''P''\<rparr>]]"
proof -
  have ids: "run_id ` set example_df = {0, 1, 2}"
    by (simp add: example_df_def)
  with get_sents_from_df_excludes_max [of example_df]
  have "get_sents_from_df example_df
          = Inr [filter (\<lambda>r. run_id r = 0) example_df, filter (\<lambda>r. run_id r = 1) example_df]"
    by blast
  then show ?thesis
    using ids by (simp add: example_df_def)
qed

subsection \<open>The label vocabulary across loads\<close>

lemma searchsorted_sorted:
  "sorted xs \<Longrightarrow> v \<in> set xs \<Longrightarrow>
     length (takeWhile (\<lambda>c. c < v) xs) < length xs \<and>
     xs ! length (takeWhile (\<lambda>c. c < v) xs) = v"
proof (induction xs)
  case Nil
  then show ?case by simp
next
  case (Cons a xs)
  show ?case
  proof (cases "a < v")
    case True
    with Cons show ?thesis by auto
  next
    case False
    with Cons.prems have "a = v" by auto
    then show ?thesis by simp
  qed
qed

lemma set_LabelEncoder_fit: "set (LabelEncoder_fit y) = set y"
  by (simp add: LabelEncoder_fit_def)

lemma sorted_LabelEncoder_fit: "sorted (LabelEncoder_fit y)"
  by (simp add: LabelEncoder_fit_def)

lemma load_dataset_encoder:
  "encoder (fst (load_dataset m df)) = Some (LabelEncoder_fit (map row_label df))"
  by (simp add: load_dataset_def Let_def split: sum.splits)

lemma LabelEncoder_round_trip:
  assumes "v \<in> set y"
  shows "\<exists>i. LabelEncoder_transform (Some (LabelEncoder_fit y)) [v] = Inr [i] \<and>
             LabelEncoder_inverse_transform (Some (LabelEncoder_fit y)) [i] = Inr [v]"
proof -
  let ?cs = "LabelEncoder_fit y"
  let ?k = "length (takeWhile (\<lambda>c. c < v) ?cs)"
  have "?k < length ?cs \<and> ?cs ! ?k = v"
    using assms by (intro searchsorted_sorted) (simp_all add: sorted_LabelEncoder_fit set_LabelEncoder_fit)
  then show ?thesis
    using assms
    by (simp add: LabelEncoder_transform_def LabelEncoder_inverse_transform_def
          searchsorted_def set_LabelEncoder_fit)
qed

text \<open>
  C6. After \<open>load_dataset\<close> has fit the encoder on a file, every label of that file is
  transformed to a class index that \<open>decode_label\<close> maps back to the label.
\<close>

theorem label_round_trip:
  assumes "r \<in> set df"
  shows "\<exists>i. LabelEncoder_transform (encoder (fst (load_dataset m df))) [row_label r] = Inr [i] \<and>
             decode_label (fst (load_dataset m df)) [i] = Inr [row_label r]"
proof -
  have "row_label r \<in> set (map row_label df)" using assms by simp
  then show ?thesis
    unfolding decode_label_def load_dataset_encoder
    by (rule LabelEncoder_round_trip)
qed

theorem label_round_trip_witness:
  "\<lparr>run_id = 2, row_word = ''no'', row_pred = ''no'', row_label = ''O''\<rparr> \<in> set example_df \<and>
   encoder (fst (load_dataset example_model example_df)) = Some [''A0'', ''O'', ''P''] \<and>
   LabelEncoder_transform (encoder (fst (load_dataset example_model example_df))) [''O'']
     = Inr [1] \<and>
   decode_label (fst (load_dataset example_model example_df)) [1] = Inr [''O'']"
  using label_round_trip
    [of "\<lparr>run_id = 2, row_word = ''no'', row_pred = ''no'', row_label = ''O''\<rparr>"
        example_df example_model]
  by (simp add: load_dataset_encoder example_df_def LabelEncoder_fit_def
        LabelEncoder_transform_def searchsorted_def decode_label_def
        LabelEncoder_inverse_transform_def)

lemma inverse_transform_differs:
  assumes "xs \<noteq> ys"
  shows "\<exists>i. LabelEncoder_inverse_transform (Some xs) [i]
            \<noteq> LabelEncoder_inverse_transform (Some ys) [i]"
proof (cases "length xs = length ys")
  case True
  with assms obtain i where "i < length xs" "xs ! i \<noteq> ys ! i"
    by (auto simp: list_eq_iff_nth_eq)
  with True have "LabelEncoder_inverse_transform (Some xs) [int i]
            \<noteq> LabelEncoder_inverse_transform (Some ys) [int i]"
    by (simp add: LabelEncoder_inverse_transform_def)
  then show ?thesis ..
next
  case False
  let ?i = "int (min (length xs) (length ys))"
  from False have "LabelEncoder_inverse_transform (Some xs) [?i]
            \<noteq> LabelEncoder_inverse_transform (Some ys) [?i]"
    by (auto simp: LabelEncoder_inverse_transform_def min_def)
  then show ?thesis ..
qed

lemma transform_differs:
  assumes "set xs \<noteq> set ys"
  shows "\<exists>v. LabelEncoder_transform (Some xs) [v] \<noteq> LabelEncoder_transform (Some ys) [v]"
proof -
  from assms obtain v where "(v \<in> set xs \<and> v \<notin> set ys) \<or> (v \<notin> set xs \<and> v \<in> set ys)"
    by auto
  then have "LabelEncoder_transform (Some xs) [v] \<noteq> LabelEncoder_transform (Some ys) [v]"
    by (auto simp: LabelEncoder_transform_def)
  then show ?thesis ..
qed

text \<open>
  C8. Every \<open>load_dataset\<close> leaves the encoder fit on the label column of the file it
  loaded, whatever it was fit on before. Loading a second file with a different label set
  therefore changes the encoder: some class index is decoded differently by
  \<open>decode_label\<close>, and some label is transformed differently.
\<close>

theorem load_dataset_refits:
  "encoder (fst (load_dataset m df)) = Some (LabelEncoder_fit (map row_label df)) \<and>
   (set (map row_label df') \<noteq> set (map row_label df) \<longrightarrow>
      encoder (fst (load_dataset (fst (load_dataset m df)) df'))
        \<noteq> encoder (fst (load_dataset m df)) \<and>
      (\<exists>i. decode_label (fst (load_dataset (fst (load_dataset m df)) df')) [i]
            \<noteq> decode_label (fst (load_dataset m df)) [i]) \<and>
      (\<exists>v. LabelEncoder_transform (encoder (fst (load_dataset (fst (load_dataset m df)) df'))) [v]
            \<noteq> LabelEncoder_transform (encoder (fst (load_dataset m df))) [v]))"
proof (intro conjI impI)
  show "encoder (fst (load_dataset m df)) = Some (LabelEncoder_fit (map row_label df))"
    by (rule load_dataset_encoder)
next
  assume d: "set (map row_label df') \<noteq> set (map row_label df)"
  then have s: "set (LabelEncoder_fit (map row_label df'))
               \<noteq> set (LabelEncoder_fit (map row_label df))"
    by (simp only: set_LabelEncoder_fit not_False_eq_True)
  then have l: "LabelEncoder_fit (map row_label df') \<noteq> LabelEncoder_fit (map row_label df)"
    by auto
  show "encoder (fst (load_dataset (fst (load_dataset m df)) df'))
        \<noteq> encoder (fst (load_dataset m df))"
    using l by (simp add: load_dataset_encoder)
  show "\<exists>i. decode_label (fst (load_dataset (fst (load_dataset m df)) df')) [i]
            \<noteq> decode_label (fst (load_dataset m df)) [i]"
    unfolding decode_label_def load_dataset_encoder
    using l by (rule inverse_transform_differs)
  show "\<exists>v. LabelEncoder_transform (encoder (fst (load_dataset (fst (load_dataset m df)) df'))) [v]
            \<noteq> LabelEncoder_transform (encoder (fst (load_dataset m df))) [v]"
    unfolding load_dataset_encoder
    using s by (rule transform_differs)
qed

theorem load_dataset_refits_witness:
  "set (map row_label example_df2) \<noteq> set (map row_label example_df) \<and>
   encoder (fst (load_dataset example_model example_df)) = Some [''A0'', ''O'', ''P''] \<and>
   encoder (fst (load_dataset (fst (load_dataset example_model example_df)) example_df2))
     = Some [''O'', ''P''] \<and>
   decode_label (fst (load_dataset example_model example_df)) [1] = Inr [''O''] \<and>
   decode_label (fst (load_dataset (fst (load_dataset example_model example_df)) example_df2)) [1]
     = Inr [''P'']"
proof -
  have "''A0'' \<in> set (map row_label example_df)"
    and "''A0'' \<notin> set (map row_label example_df2)"
    by (simp_all add: example_df_def example_df2_def)
  then have d: "set (map row_label example_df2) \<noteq> set (map row_label example_df)"
    by blast
  with load_dataset_refits [of example_model example_df example_df2]
  have "encoder (fst (load_dataset (fst (load_dataset example_model example_df)) example_df2))
          \<noteq> encoder (fst (load_dataset example_model example_df))"
    by blast
  then show ?thesis
    using d by (simp add: load_dataset_encoder example_df_def example_df2_def
                  LabelEncoder_fit_def decode_label_def LabelEncoder_inverse_transform_def)
qed

subsection \<open>Encoded inputs and outputs\<close>

lemma encode_inputs_fold:
  "fold (\<lambda>sent (word_inputs', pred_inputs).
             (let word_encodings = map (\<lambda>r. emb_get_word_index m (row_word r)) sent;
                  pred_word_encodings = map (\<lambda>r. emb_get_word_index m (row_pred r)) sent
              in (word_inputs' @ [map Sample word_encodings],
                  pred_inputs @ [map Sample pred_word_encodings])))
          sents (a, b)
     = (a @ map (map (\<lambda>r. Sample (emb_get_word_index m (row_word r)))) sents,
        b @ map (map (\<lambda>r. Sample (emb_get_word_index m (row_pred r)))) sents)"
  by (induction sents arbitrary: a b) (simp_all add: Let_def comp_def)

lemma encode_inputs_collect_map:
  "encode_inputs_collect m sents
     = (map (map (\<lambda>r. Sample (emb_get_word_index m (row_word r)))) sents,
        map (map (\<lambda>r. Sample (emb_get_word_index m (row_pred r)))) sents)"
  unfolding encode_inputs_collect_def encode_inputs_fold by simp

lemma pad_sequences_pad_one:
  "sequences \<noteq> [] \<Longrightarrow>
     pad_sequences sequences pad_func maxlen
       = Inr (map (pad_one (effective_length sequences maxlen) (pad_func ())) sequences)"
  by (simp add: pad_sequences_nonempty pad_one_def)

lemma pad_sequences_Nil: "pad_sequences [] pad_func maxlen = Inl ValueError"
  by (simp add: pad_sequences_def)

lemma effective_length_cong:
  assumes "map length xs = map length ys"
  shows "effective_length xs maxlen = effective_length ys maxlen"
proof -
  have "length ` set xs = length ` set ys"
    using assms by (metis set_map)
  then have "max_observed_length xs = max_observed_length ys"
    by (simp only: max_observed_length_def)
  then show ?thesis
    by (simp only: effective_length_def)
qed

lemma length_pad_one_eq:
  "length (pad_one k p s) = (if k < 0 then nat (int (length s) + k) else nat k)"
  by (auto simp: pad_one_def py_slice_to_def)

lemma nth_pad_one:
  assumes "j < length (pad_one k p s)"
  shows "pad_one k p s ! j = (if j < length s then s ! j else p)"
proof (cases "k < 0")
  case True
  with assms show ?thesis
    by (auto simp: pad_one_def py_slice_to_def)
next
  case False
  with assms have j: "j < nat k" by (simp add: length_pad_one_eq)
  show ?thesis
  proof (cases "j < length s")
    case True
    with j False show ?thesis
      by (simp add: pad_one_def py_slice_to_def nth_append)
  next
    case False
    with j \<open>\<not> k < 0\<close> show ?thesis
      by (simp add: pad_one_def py_slice_to_def nth_append)
  qed
qed

lemma map_pad_one: "map f (pad_one k p s) = pad_one k (f p) (map f s)"
  by (simp add: pad_one_def py_slice_to_def take_map)

lemma encode_inputs_eq:
  assumes "sents \<noteq> []"
  shows "encode_inputs m sents =
           Inr \<lparr>word_inputs =
                  map (\<lambda>s. pad_one (effective_length sents (sent_maxlen m)) 0
                              (map (\<lambda>r. emb_get_word_index m (row_word r)) s)) sents,
                predicate_inputs =
                  map (\<lambda>s. pad_one (effective_length sents (sent_maxlen m)) 0
                              (map (\<lambda>r. emb_get_word_index m (row_pred r)) s)) sents\<rparr>"
proof -
  let ?W = "map (map (\<lambda>r. Sample (emb_get_word_index m (row_word r)))) sents"
  let ?P = "map (map (\<lambda>r. Sample (emb_get_word_index m (row_pred r)))) sents"
  have kW: "effective_length ?W (sent_maxlen m) = effective_length sents (sent_maxlen m)"
    by (rule effective_length_cong) simp
  have kP: "effective_length ?P (sent_maxlen m) = effective_length sents (sent_maxlen m)"
    by (rule effective_length_cong) simp
  have W: "pad_sequences ?W pad_func_Pad_sample (sent_maxlen m)
             = Inr (map (pad_one (effective_length sents (sent_maxlen m)) Pad_sample) ?W)"
    using assms pad_sequences_pad_one [of ?W pad_func_Pad_sample "sent_maxlen m"]
    by (simp only: kW pad_func_Pad_sample_def) simp
  have P: "pad_sequences ?P pad_func_Pad_sample (sent_maxlen m)
             = Inr (map (pad_one (effective_length sents (sent_maxlen m)) Pad_sample) ?P)"
    using assms pad_sequences_pad_one [of ?P pad_func_Pad_sample "sent_maxlen m"]
    by (simp only: kP pad_func_Pad_sample_def) simp
  show ?thesis
    by (simp add: encode_inputs_def encode_inputs_collect_map W P map_pad_one comp_def
          encode_def Pad_sample_def)
qed

lemma encode_inputs_Nil: "encode_inputs m [] = Inl ValueError"
  by (simp add: encode_inputs_def encode_inputs_collect_def pad_sequences_Nil)

lemma length_to_categorical: "to_categorical y = Inr c \<Longrightarrow> length c = length y"
  by (auto simp: to_categorical_def split: sum.splits)

lemma length_LabelEncoder_transform:
  "LabelEncoder_transform enc ls = Inr y \<Longrightarrow> length y = length ls"
  by (auto simp: LabelEncoder_transform_def split: option.splits if_splits)

lemma encode_outputs_loop_Inr:
  "encode_outputs_loop m sents acc = Inr out \<Longrightarrow>
     \<exists>cs. out = acc @ cs \<and>
          list_all2 (\<lambda>sent c. \<exists>y. LabelEncoder_transform (encoder m) (map row_label sent) = Inr y \<and>
                                   to_categorical y = Inr c) sents cs"
proof (induction sents arbitrary: acc)
  case Nil
  then show ?case by simp
next
  case (Cons sent rest)
  from Cons.prems obtain y c where
    y: "LabelEncoder_transform (encoder m) (map row_label sent) = Inr y"
    and c: "to_categorical y = Inr c"
    and rest: "encode_outputs_loop m rest (acc @ [c]) = Inr out"
    by (auto split: sum.splits)
  from Cons.IH [OF rest] obtain cs where
    "out = (acc @ [c]) @ cs" and
    "list_all2 (\<lambda>sent c. \<exists>y. LabelEncoder_transform (encoder m) (map row_label sent) = Inr y \<and>
                                   to_categorical y = Inr c) rest cs"
    by blast
  with y c have "out = acc @ (c # cs) \<and>
     list_all2 (\<lambda>sent c. \<exists>y. LabelEncoder_transform (encoder m) (map row_label sent) = Inr y \<and>
                                   to_categorical y = Inr c) (sent # rest) (c # cs)"
    by simp
  then show ?case by blast
qed

lemma encode_outputs_Inr:
  assumes "encode_outputs m sents = Inr Y"
  shows "sents \<noteq> [] \<and>
         (\<exists>cs n. num_of_classes m = Inr n \<and>
               list_all2 (\<lambda>sent c. \<exists>y. LabelEncoder_transform (encoder m) (map row_label sent) = Inr y \<and>
                                   to_categorical y = Inr c) sents cs \<and>
               Y = map (pad_one (effective_length sents (sent_maxlen m)) (replicate n 0)) cs)"
proof -
  from assms obtain out n where out: "encode_outputs_loop m sents [] = Inr out"
    and n: "num_of_classes m = Inr n"
    and pad: "pad_sequences out (\<lambda>_. replicate n 0) (sent_maxlen m) = Inr Y"
    by (auto simp: encode_outputs_def split: sum.splits if_splits)
  from encode_outputs_loop_Inr [OF out] have
    all: "list_all2 (\<lambda>sent c. \<exists>y. LabelEncoder_transform (encoder m) (map row_label sent) = Inr y \<and>
                                   to_categorical y = Inr c) sents out"
    by simp
  have ne: "out \<noteq> []" using pad by (auto simp: pad_sequences_Nil)
  with all have sents: "sents \<noteq> []" by auto
  have "list_all2 (\<lambda>sent c. length c = length sent) sents out"
    using all
    by (rule list_all2_mono)
       (auto dest!: length_to_categorical length_LabelEncoder_transform)
  then have "map length out = map length sents"
    by (induction rule: list_all2_induct) simp_all
  then have k: "effective_length out (sent_maxlen m) = effective_length sents (sent_maxlen m)"
    by (rule effective_length_cong)
  have "Y = map (pad_one (effective_length sents (sent_maxlen m)) (replicate n 0)) out"
    using pad pad_sequences_pad_one [OF ne, of "\<lambda>_. replicate n 0" "sent_maxlen m"]
    by (simp add: k)
  with all sents n show ?thesis by blast
qed

text \<open>
  C3. When \<open>encode_inputs\<close> and \<open>encode_outputs\<close> both return for the same sentence
  groups, the word inputs, the predicate inputs and the outputs have one row per sentence,
  and the rows of a sentence have the same length in all three. Position \<open>j\<close> of
  sentence \<open>i\<close> holds the word index, the predicate index and the one-hot label of row
  \<open>j\<close> of that sentence where the sentence has such a row, and the pad values (index 0,
  the all-zero vector with one entry per class) after its end. With no maximum length or one that is not
  negative, every row has the effective length.
\<close>

theorem encode_inputs_outputs_aligned:
  assumes "encode_inputs m sents = Inr X" and "encode_outputs m sents = Inr Y"
  shows "length (word_inputs X) = length sents \<and>
         length (predicate_inputs X) = length sents \<and>
         length Y = length sents \<and>
         (\<forall>i < length sents.
            length (word_inputs X ! i) = length (Y ! i) \<and>
            length (predicate_inputs X ! i) = length (Y ! i) \<and>
            (\<forall>j < length (Y ! i).
               (j < length (sents ! i) \<longrightarrow>
                  word_inputs X ! i ! j = emb_get_word_index m (row_word (sents ! i ! j)) \<and>
                  predicate_inputs X ! i ! j = emb_get_word_index m (row_pred (sents ! i ! j)) \<and>
                  (\<exists>y c. LabelEncoder_transform (encoder m) (map row_label (sents ! i)) = Inr y \<and>
                         to_categorical y = Inr c \<and> Y ! i ! j = c ! j)) \<and>
               (length (sents ! i) \<le> j \<longrightarrow>
                  word_inputs X ! i ! j = 0 \<and>
                  predicate_inputs X ! i ! j = 0 \<and>
                  (\<exists>n. num_of_classes m = Inr n \<and> Y ! i ! j = replicate n 0)))) \<and>
         ((\<forall>l. sent_maxlen m = Some l \<longrightarrow> 0 \<le> l) \<longrightarrow>
            (\<forall>i < length sents.
               int (length (Y ! i)) = effective_length sents (sent_maxlen m)))"
proof -
  let ?k = "effective_length sents (sent_maxlen m)"
  let ?W = "\<lambda>s. map (\<lambda>r. emb_get_word_index m (row_word r)) s"
  let ?P = "\<lambda>s. map (\<lambda>r. emb_get_word_index m (row_pred r)) s"
  let ?R = "\<lambda>sent c. \<exists>y. LabelEncoder_transform (encoder m) (map row_label sent) = Inr y \<and>
                          to_categorical y = Inr c"
  from encode_outputs_Inr [OF assms(2)] obtain cs n where
    ne: "sents \<noteq> []" and n: "num_of_classes m = Inr n"
    and all: "list_all2 ?R sents cs"
    and Y: "Y = map (pad_one ?k (replicate n 0)) cs"
    by blast
  let ?Z = "replicate n (0::int)"
  from assms(1) encode_inputs_eq [OF ne, of m] have
    X: "X = \<lparr>word_inputs = map (\<lambda>s. pad_one ?k 0 (?W s)) sents,
             predicate_inputs = map (\<lambda>s. pad_one ?k 0 (?P s)) sents\<rparr>"
    by simp
  have len: "length cs = length sents"
    using all by (simp add: list_all2_lengthD)
  have row: "?R (sents ! i) (cs ! i) \<and> length (cs ! i) = length (sents ! i)"
    if "i < length sents" for i
  proof -
    from all that have r: "?R (sents ! i) (cs ! i)"
      by (rule list_all2_nthD)
    then obtain y where "LabelEncoder_transform (encoder m) (map row_label (sents ! i)) = Inr y"
      and "to_categorical y = Inr (cs ! i)" by blast
    then have "length (cs ! i) = length (sents ! i)"
      by (auto dest!: length_to_categorical length_LabelEncoder_transform)
    with r show ?thesis by blast
  qed
  have dims: "length (word_inputs X) = length sents \<and>
         length (predicate_inputs X) = length sents \<and> length Y = length sents"
    by (simp add: X Y len)
  have rows: "length (word_inputs X ! i) = length (Y ! i) \<and>
            length (predicate_inputs X ! i) = length (Y ! i) \<and>
            (\<forall>j < length (Y ! i).
               (j < length (sents ! i) \<longrightarrow>
                  word_inputs X ! i ! j = emb_get_word_index m (row_word (sents ! i ! j)) \<and>
                  predicate_inputs X ! i ! j = emb_get_word_index m (row_pred (sents ! i ! j)) \<and>
                  (\<exists>y c. LabelEncoder_transform (encoder m) (map row_label (sents ! i)) = Inr y \<and>
                         to_categorical y = Inr c \<and> Y ! i ! j = c ! j)) \<and>
               (length (sents ! i) \<le> j \<longrightarrow>
                  word_inputs X ! i ! j = 0 \<and>
                  predicate_inputs X ! i ! j = 0 \<and>
                  (\<exists>n. num_of_classes m = Inr n \<and> Y ! i ! j = replicate n 0)))"
    if i: "i < length sents" for i
  proof -
    let ?s = "sents ! i"
    from row [OF i] obtain y where
      y: "LabelEncoder_transform (encoder m) (map row_label ?s) = Inr y"
      and c: "to_categorical y = Inr (cs ! i)"
      and lc: "length (cs ! i) = length ?s"
      by blast
    have Xw: "word_inputs X ! i = pad_one ?k 0 (?W ?s)"
      and Xp: "predicate_inputs X ! i = pad_one ?k 0 (?P ?s)"
      and Yi: "Y ! i = pad_one ?k ?Z (cs ! i)"
      using i len by (simp_all add: X Y)
    have l1: "length (word_inputs X ! i) = length (Y ! i)"
      and l2: "length (predicate_inputs X ! i) = length (Y ! i)"
      by (simp_all add: Xw Xp Yi length_pad_one_eq lc)
    have nth: "(j < length ?s \<longrightarrow>
                  word_inputs X ! i ! j = emb_get_word_index m (row_word (?s ! j)) \<and>
                  predicate_inputs X ! i ! j = emb_get_word_index m (row_pred (?s ! j)) \<and>
                  (\<exists>y c. LabelEncoder_transform (encoder m) (map row_label ?s) = Inr y \<and>
                         to_categorical y = Inr c \<and> Y ! i ! j = c ! j)) \<and>
               (length ?s \<le> j \<longrightarrow>
                  word_inputs X ! i ! j = 0 \<and>
                  predicate_inputs X ! i ! j = 0 \<and>
                  (\<exists>n. num_of_classes m = Inr n \<and> Y ! i ! j = replicate n 0))"
      if j: "j < length (Y ! i)" for j
    proof -
      have jw: "j < length (pad_one ?k 0 (?W ?s))"
        and jp: "j < length (pad_one ?k 0 (?P ?s))"
        and jy: "j < length (pad_one ?k ?Z (cs ! i))"
        using j l1 l2 by (simp_all add: Xw Xp Yi)
      have w: "word_inputs X ! i ! j
                 = (if j < length ?s then emb_get_word_index m (row_word (?s ! j)) else 0)"
        using nth_pad_one [OF jw] by (simp add: Xw)
      have p: "predicate_inputs X ! i ! j
                 = (if j < length ?s then emb_get_word_index m (row_pred (?s ! j)) else 0)"
        using nth_pad_one [OF jp] by (simp add: Xp)
      have yy: "Y ! i ! j = (if j < length ?s then cs ! i ! j else ?Z)"
        using nth_pad_one [OF jy] by (simp add: Yi lc)
      show ?thesis
        using w p yy y c n by auto
    qed
    from l1 l2 nth show ?thesis by blast
  qed
  have padded: "\<forall>i < length sents. int (length (Y ! i)) = ?k"
    if nonneg: "\<forall>l. sent_maxlen m = Some l \<longrightarrow> 0 \<le> l"
  proof -
    have "0 \<le> ?k"
      using nonneg by (cases "sent_maxlen m") (simp_all add: effective_length_def)
    then show ?thesis
      using len by (simp add: Y length_pad_one_eq)
  qed
  from dims rows padded show ?thesis by blast
qed

theorem encode_inputs_outputs_aligned_witness:
  "get_sents_from_df example_df = Inr example_sents \<and>
   encode_inputs (example_model\<lparr>encoder := Some [''A0'', ''O'', ''P'']\<rparr>) example_sents
     = Inr \<lparr>word_inputs = [[2, 3], [4, 0]], predicate_inputs = [[3, 3], [4, 0]]\<rparr> \<and>
   encode_outputs (example_model\<lparr>encoder := Some [''A0'', ''O'', ''P'']\<rparr>) example_sents
     = Inr [[[1, 0, 0], [0, 0, 1]], [[0, 0, 1], [0, 0, 0]]] \<and>
   snd (load_dataset example_model example_df)
     = Inr (\<lparr>word_inputs = [[2, 3], [4, 0]], predicate_inputs = [[3, 3], [4, 0]]\<rparr>,
            [[[1, 0, 0], [0, 0, 1]], [[0, 0, 1], [0, 0, 0]]]) \<and>
   length [[[1, 0, 0], [0, 0, 1]], [[0, 0, 1], [0, 0, (0::int)]]] = length example_sents"
proof -
  let ?m = "example_model\<lparr>encoder := Some [''A0'', ''O'', ''P'']\<rparr>"
  have sents: "get_sents_from_df example_df = Inr example_sents"
    by code_simp
  have X: "encode_inputs ?m example_sents
             = Inr \<lparr>word_inputs = [[2, 3], [4, 0]], predicate_inputs = [[3, 3], [4, 0]]\<rparr>"
    by code_simp
  have Y: "encode_outputs ?m example_sents
             = Inr [[[1, 0, 0], [0, 0, 1]], [[0, 0, 1], [0, 0, 0]]]"
    by code_simp
  have fit: "LabelEncoder_fit (map row_label example_df) = [''A0'', ''O'', ''P'']"
    by code_simp
  have load: "snd (load_dataset example_model example_df)
     = Inr (\<lparr>word_inputs = [[2, 3], [4, 0]], predicate_inputs = [[3, 3], [4, 0]]\<rparr>,
            [[[1, 0, 0], [0, 0, 1]], [[0, 0, 1], [0, 0, 0]]])"
    by (simp add: load_dataset_def Let_def fit sents X Y)
  from encode_inputs_outputs_aligned [OF X Y]
  have "length [[[1, 0, 0], [0, 0, 1]], [[0, 0, 1], [0, 0, (0::int)]]] = length example_sents"
    by blast
  with sents X Y load show ?thesis by blast
qed

end
